theory Spec2Isabelle
  imports Complex_Main "HOL-Library.Sublist" "HOL-Library.Word"
begin

section \<open>Python values and exceptions\<close>

text \<open>
  The exception classes that the handlers of \<^verbatim>\<open>send_receive\<close> tell apart, and the ones the
  receiver can raise itself. \<open>ConnectionClosedError\<close> carries \<^verbatim>\<open>str(e)\<close>, which the supervisor
  inspects. \<open>CancelledError\<close> is a \<^verbatim>\<open>BaseException\<close> that is not an \<^verbatim>\<open>Exception\<close>; every other
  constructor is a subclass of \<^verbatim>\<open>Exception\<close>. \<open>OtherException\<close> stands for any further subclass
  of \<^verbatim>\<open>Exception\<close> (\<^verbatim>\<open>OSError\<close>, \<^verbatim>\<open>ConnectionClosedOK\<close>, \<^verbatim>\<open>openai.APIError\<close>, ...).
\<close>

datatype py_error =
    ConnectionClosedError string
  | CancelledError
  | JSONDecodeError
  | KeyError string
  | TypeError
  | IndexError
  | OtherException string

text \<open>
  What \<^verbatim>\<open>json.loads\<close> returns: \<^verbatim>\<open>None\<close>, a bool, an int, a float, a str, a list or a dict.
  \<open>JObj\<close> holds the items of the dict (keys distinct, as in a Python dict). The value of a
  number is never inspected by the program.
\<close>

datatype json =
    JNull
  | JBool bool
  | JInt int
  | JFloat rat
  | JStr string
  | JArr "json list"
  | JObj "(string \<times> json) list"

text \<open>Python's \<^verbatim>\<open>needle in haystack\<close> on two strings: the substring test.\<close>

fun str_contains :: "string \<Rightarrow> string \<Rightarrow> bool" where
  "str_contains needle [] = (needle = [])"
| "str_contains needle (c # cs) = (prefix needle (c # cs) \<or> str_contains needle cs)"

text \<open>
  \<^verbatim>\<open>key in obj\<close> for a str \<open>key\<close>: key membership on a dict, element membership on a list,
  substring on a str, and \<^verbatim>\<open>TypeError\<close> on a value that is not iterable.
\<close>

fun py_in :: "string \<Rightarrow> json \<Rightarrow> py_error + bool" where
  "py_in k (JObj kvs) = Inr (k \<in> set (map fst kvs))"
| "py_in k (JArr xs) = Inr (JStr k \<in> set xs)"
| "py_in k (JStr t) = Inr (str_contains k t)"
| "py_in k JNull = Inl TypeError"
| "py_in k (JBool b) = Inl TypeError"
| "py_in k (JInt i) = Inl TypeError"
| "py_in k (JFloat f) = Inl TypeError"

text \<open>
  \<^verbatim>\<open>obj[key]\<close> for a str \<open>key\<close>: the value on a dict (\<^verbatim>\<open>KeyError\<close> when absent) and
  \<^verbatim>\<open>TypeError\<close> on everything else (a list or a str wants an integer index).
\<close>

fun py_getitem :: "json \<Rightarrow> string \<Rightarrow> py_error + json" where
  "py_getitem (JObj kvs) k = (case map_of kvs k of None \<Rightarrow> Inl (KeyError k) | Some v \<Rightarrow> Inr v)"
| "py_getitem (JArr xs) k = Inl TypeError"
| "py_getitem (JStr t) k = Inl TypeError"
| "py_getitem JNull k = Inl TypeError"
| "py_getitem (JBool b) k = Inl TypeError"
| "py_getitem (JInt i) k = Inl TypeError"
| "py_getitem (JFloat f) k = Inl TypeError"

section \<open>The session: the attributes of RealtimeTranscriber and the effects it has\<close>

text \<open>One entry of \<^verbatim>\<open>self.messages\<close>: the dict \<^verbatim>\<open>{"role": role, "content": message}\<close>.\<close>

record message =
  role :: string
  content :: string

text \<open>
  The first block of fields are the attributes of \<^verbatim>\<open>self\<close> that the program reads and
  writes. The second block records the calls the program makes on its collaborators, in
  order: what was written by \<^verbatim>\<open>print\<close> (one element per call, with its \<^verbatim>\<open>end\<close>), the
  \<^verbatim>\<open>(model, messages)\<close> of every \<^verbatim>\<open>chat.completions.create\<close> call, the argument of every
  \<^verbatim>\<open>websocket.send\<close> call, the arguments of those \<^verbatim>\<open>send\<close> calls that returned (the
  messages handed over to the connection), the number of audio frames pulled from the audio stream, the
  argument of every call of \<^verbatim>\<open>process_transcripts\<close>, the number of \<^verbatim>\<open>websockets.connect\<close>
  calls, and the exceptions handed to \<^verbatim>\<open>print(f"Unexpected error: {e}")\<close> (the text of
  \<^verbatim>\<open>str(e)\<close> is the interpreter's and is not rendered).
\<close>

record session =
  model :: string
  user_message :: string
  user_name :: string
  interviewer_name :: string
  assistant_message :: string
  messages :: "message list"
  transcribing :: bool
  stop_transcription :: bool
  stdout :: "string list"
  requests :: "(string \<times> message list) list"
  sent :: "string list"
  transmitted :: "string list"
  frames_read :: nat
  processed :: "string list"
  connects :: nat
  reported :: "py_error list"

text \<open>How a piece of code ends: it returns, or it raises; either way the session is as the
  code left it.\<close>

datatype outcome = Normal session | Raised py_error session

fun state_of :: "outcome \<Rightarrow> session" where
  "state_of (Normal s) = s"
| "state_of (Raised e s) = s"

definition NL :: string where
  "NL = [CHR 0x0A]"

text \<open>\<^verbatim>\<open>print(x)\<close> writes \<open>x\<close> and a newline; \<^verbatim>\<open>print(x, end='')\<close> writes \<open>x\<close> alone.\<close>

definition py_print :: "string \<Rightarrow> session \<Rightarrow> session" where
  "py_print x s = s\<lparr>stdout := stdout s @ [x @ NL]\<rparr>"

definition py_print_end :: "string \<Rightarrow> session \<Rightarrow> session" where
  "py_print_end x s = s\<lparr>stdout := stdout s @ [x]\<rparr>"

definition append_message :: "string \<Rightarrow> string \<Rightarrow> session \<Rightarrow> session" where
  "append_message r m s = s\<lparr>messages := messages s @ [\<lparr>role = r, content = m\<rparr>]\<rparr>"

definition style_note :: string where
  "style_note = ''Note: Remember to always be concise, brief, straight-to-the-point...''"

text \<open>
  \<^verbatim>\<open>__init__\<close>, with the four values it imports from \<^verbatim>\<open>configure\<close> as arguments. Opening the
  audio device is outside the model.
\<close>

definition init :: "string \<Rightarrow> string \<Rightarrow> string \<Rightarrow> string \<Rightarrow> session" where
  "init system_prompt ai_model uname iname =
     append_message ''user'' style_note
       \<lparr>model = ai_model, user_message = '''', user_name = uname, interviewer_name = iname,
        assistant_message = '''',
        messages = [\<lparr>role = ''system'', content = system_prompt\<rparr>],
        transcribing = False, stop_transcription = False,
        stdout = [], requests = [], sent = [], transmitted = [], frames_read = 0,
        processed = [],
        connects = 0, reported = []\<rparr>"

section \<open>The Conversation Processor\<close>

text \<open>
  The completion service, as the program sees it. A streamed response carries the
  \<^verbatim>\<open>delta.content\<close> of each of its \<^verbatim>\<open>choices\<close> (\<open>None\<close> when absent). The call of
  \<^verbatim>\<open>chat.completions.create\<close> raises, or it returns a stream that yields finitely many
  responses and then ends or raises. The service is a parameter of the model: a function
  of the request.
\<close>

type_synonym response = "string option list"

datatype completion = CreateRaises py_error | Stream "response list" "py_error option"

type_synonym service = "string \<Rightarrow> message list \<Rightarrow> completion"

text \<open>
  The generator \<^verbatim>\<open>get_response_from_openai\<close> as what it yields before it ends (\<open>None\<close>) or
  raises: \<^verbatim>\<open>response.choices[0].delta.content\<close> of each response, \<^verbatim>\<open>IndexError\<close> at a response
  without choices.
\<close>

fun yields :: "response list \<Rightarrow> py_error option \<Rightarrow> string option list \<times> py_error option" where
  "yields [] e = ([], e)"
| "yields ([] # rs) e = ([], Some IndexError)"
| "yields ((c # cs) # rs) e = (c # fst (yields rs e), snd (yields rs e))"

text \<open>
  \<^verbatim>\<open>__init__\<close> builds the client as \<^verbatim>\<open>OpenAI(api_key=OPENAI_API_KEY)\<close>, which keeps the
  library's default of two retries. Inside one call of \<^verbatim>\<open>chat.completions.create\<close> the
  client sends the HTTP request; after a failure that the library counts as retryable (a
  connection error, a timeout, a status 408, 409, 429 or 5xx) it sends it again, at most two
  more times, and raises the last failure; any other failure is raised at once; once a
  stream has been returned nothing is sent again. The endpoint is what the \<open>k\<close>-th HTTP
  request of a call meets; \<open>create_from\<close> gives what the call does and how many HTTP
  requests it has made. \<open>openai_client ep\<close> is the service that the program sees when the
  endpoint is \<open>ep\<close>.
\<close>

datatype attempt = Refused py_error bool | Accepted "response list" "py_error option"

type_synonym endpoint = "string \<Rightarrow> message list \<Rightarrow> nat \<Rightarrow> attempt"

definition DEFAULT_MAX_RETRIES :: nat where
  "DEFAULT_MAX_RETRIES = 2"

fun create_from :: "endpoint \<Rightarrow> string \<Rightarrow> message list \<Rightarrow> nat \<Rightarrow> nat \<Rightarrow> completion \<times> nat" where
  "create_from ep m ms k 0 =
     (case ep m ms k of
        Refused e retryable \<Rightarrow> (CreateRaises e, 1)
      | Accepted rs e \<Rightarrow> (Stream rs e, 1))"
| "create_from ep m ms k (Suc retries_left) =
     (case ep m ms k of
        Refused e retryable \<Rightarrow>
          if retryable then
            (fst (create_from ep m ms (Suc k) retries_left),
             Suc (snd (create_from ep m ms (Suc k) retries_left)))
          else (CreateRaises e, 1)
      | Accepted rs e \<Rightarrow> (Stream rs e, 1))"

definition openai_client :: "endpoint \<Rightarrow> service" where
  "openai_client ep m ms = fst (create_from ep m ms 0 DEFAULT_MAX_RETRIES)"


text \<open>The argument \<open>transcript\<close> is not used by the source either: the request is built from
  \<^verbatim>\<open>self.model\<close> and \<^verbatim>\<open>self.messages\<close>. \<open>svc\<close> is the call
  \<^verbatim>\<open>self.openai_client.chat.completions.create\<close>; \<open>requests\<close> gets one entry per call.\<close>

definition get_response_from_openai ::
  "service \<Rightarrow> session \<Rightarrow> string \<Rightarrow> (string option list \<times> py_error option) \<times> session" where
  "get_response_from_openai svc s transcript =
     (let s' = s\<lparr>requests := requests s @ [(model s, messages s)]\<rparr> in
      case svc (model s) (messages s) of
        CreateRaises e \<Rightarrow> (([], Some e), s')
      | Stream rs e \<Rightarrow> (yields rs e, s'))"

text \<open>The body of the \<^verbatim>\<open>for content in ...\<close> loop of \<^verbatim>\<open>process_transcripts\<close>, over what the
  generator yields: a content that is \<^verbatim>\<open>None\<close> or \<^verbatim>\<open>''\<close> is falsy and skipped.\<close>

fun consume :: "string option list \<Rightarrow> session \<Rightarrow> session" where
  "consume [] s = s"
| "consume (None # cs) s = consume cs s"
| "consume (Some c # cs) s =
     consume cs
       (if c \<noteq> [] then
          (py_print_end c s)\<lparr>assistant_message := assistant_message s @ c\<rparr>
        else s)"

definition process_transcripts :: "service \<Rightarrow> session \<Rightarrow> string \<Rightarrow> outcome" where
  "process_transcripts svc s transcript =
     (let s0 = s\<lparr>processed := processed s @ [transcript]\<rparr>;
          s1 = py_print (''Processing...'' @ NL) s0;
          s2 = py_print_end (user_name s1 @ '': '') s1;
          (ys, s3) = get_response_from_openai svc s2 transcript;
          s4 = consume (fst ys) s3
      in case snd ys of
           Some e \<Rightarrow> Raised e s4
         | None \<Rightarrow>
             (let s5 = append_message ''assistant'' (assistant_message s4) s4;
                  s6 = py_print (NL @ NL @ ''Press spacebar to continue transcription.'') s5
              in Normal (s6\<lparr>assistant_message := ''''\<rparr>)))"

section \<open>The Transcript Receiver\<close>

text \<open>
  What one \<^verbatim>\<open>await websocket.recv()\<close> followed by \<^verbatim>\<open>json.loads\<close> gives: \<^verbatim>\<open>recv\<close> raises, or
  it returns a frame that \<^verbatim>\<open>json.loads\<close> rejects (\<^verbatim>\<open>JSONDecodeError\<close>) or parses.
\<close>

datatype inbound = RecvRaises py_error | NotJSON | Parsed json

text \<open>The statements of the receiver's loop body after the \<^verbatim>\<open>if\<close> has been passed.\<close>

definition handoff :: "service \<Rightarrow> session \<Rightarrow> outcome" where
  "handoff svc s =
     (let s1 = py_print (interviewer_name s @ '': '' @ user_message s @ NL) s;
          s2 = append_message ''user'' (user_message s1) s1
      in case process_transcripts svc s2 (user_message s2) of
           Raised e s3 \<Rightarrow> Raised e s3
         | Normal s3 \<Rightarrow> Normal (s3\<lparr>user_message := ''''\<rparr>))"

text \<open>One pass through the body of the \<^verbatim>\<open>while\<close> loop of \<^verbatim>\<open>receive_transcript\<close>.\<close>

definition receive_body :: "service \<Rightarrow> session \<Rightarrow> inbound \<Rightarrow> outcome" where
  "receive_body svc s i =
     (case i of
        RecvRaises e \<Rightarrow> Raised e s
      | NotJSON \<Rightarrow> Raised JSONDecodeError s
      | Parsed transcript \<Rightarrow>
          (case py_in ''text'' transcript of
             Inl e \<Rightarrow> Raised e s
           | Inr False \<Rightarrow> Normal s
           | Inr True \<Rightarrow>
               (case py_getitem transcript ''message_type'' of
                  Inl e \<Rightarrow> Raised e s
                | Inr mt \<Rightarrow>
                    if mt = JStr ''FinalTranscript'' then
                      (case py_getitem transcript ''text'' of
                         Inl e \<Rightarrow> Raised e s
                       | Inr (JStr t) \<Rightarrow>
                           (let s1 = s\<lparr>user_message := user_message s @ t\<rparr>
                            in if \<not> transcribing s1 then handoff svc s1 else Normal s1)
                       | Inr _ \<Rightarrow> Raised TypeError s)
                    else Normal s)))"



section \<open>The Audio Sender\<close>

type_synonym byte = "8 word"

text \<open>
  \<^verbatim>\<open>base64.b64encode\<close> (RFC 4648, standard alphabet, padded): three bytes give four
  characters, a last group of one or two bytes is padded with \<open>=\<close>.
\<close>

definition b64_alphabet :: string where
  "b64_alphabet = ''ABCDEFGHIJKLMNOPQRSTUVWXYZabcdefghijklmnopqrstuvwxyz0123456789+/''"

definition b64_char :: "nat \<Rightarrow> char" where
  "b64_char n = b64_alphabet ! (n mod 64)"

fun b64encode :: "byte list \<Rightarrow> string" where
  "b64encode [] = []"
| "b64encode [a] =
     (let n = unat a * 65536
      in [b64_char (n div 262144), b64_char (n div 4096), CHR ''='', CHR ''=''])"
| "b64encode [a, b] =
     (let n = unat a * 65536 + unat b * 256
      in [b64_char (n div 262144), b64_char (n div 4096), b64_char (n div 64), CHR ''=''])"
| "b64encode (a # b # c # rest) =
     (let n = unat a * 65536 + unat b * 256 + unat c
      in [b64_char (n div 262144), b64_char (n div 4096), b64_char (n div 64), b64_char n]
         @ b64encode rest)"

text \<open>
  The decoder that goes with it (\<^verbatim>\<open>base64.b64decode\<close> on well-formed input), used to state
  that the encoding is the one a peer can undo: the position of a character in the alphabet
  gives six bits, four characters give three bytes, padding marks a short last group.
\<close>

definition b64_index :: "char \<Rightarrow> nat" where
  "b64_index c = length (takeWhile (\<lambda>x. x \<noteq> c) b64_alphabet)"

fun b64decode :: "string \<Rightarrow> byte list" where
  "b64decode (a # b # c # d # rest) =
     (let n = b64_index a * 262144 + b64_index b * 4096
              + (if c = CHR ''='' then 0 else b64_index c * 64)
              + (if d = CHR ''='' then 0 else b64_index d)
      in if c = CHR ''='' then [of_nat (n div 65536)]
         else if d = CHR ''='' then [of_nat (n div 65536), of_nat (n div 256)]
         else [of_nat (n div 65536), of_nat (n div 256), of_nat n] @ b64decode rest)"
| "b64decode cs = []"

text \<open>
  \<^verbatim>\<open>json.dumps\<close> of a str (with the default \<^verbatim>\<open>ensure_ascii\<close>): the characters from space to
  \<open>~\<close> stand for themselves except the quote and the backslash; the others are escaped.
  A \<open>char\<close> is read as the code point of the same number.
\<close>

definition hex_digit :: "nat \<Rightarrow> char" where
  "hex_digit n = ''0123456789abcdef'' ! (n mod 16)"

definition json_escape :: "char \<Rightarrow> string" where
  "json_escape c =
     (if c = CHR 0x22 then [CHR 0x5C, CHR 0x22]
      else if c = CHR 0x5C then [CHR 0x5C, CHR 0x5C]
      else if c = CHR 0x0A then [CHR 0x5C, CHR ''n'']
      else if c = CHR 0x0D then [CHR 0x5C, CHR ''r'']
      else if c = CHR 0x09 then [CHR 0x5C, CHR ''t'']
      else if c = CHR 0x08 then [CHR 0x5C, CHR ''b'']
      else if c = CHR 0x0C then [CHR 0x5C, CHR ''f'']
      else if 32 \<le> (of_char c :: nat) \<and> (of_char c :: nat) \<le> 126 then [c]
      else [CHR 0x5C, CHR ''u'', CHR ''0'', CHR ''0'',
            hex_digit (of_char c div 16), hex_digit (of_char c)])"

definition json_dumps_str :: "string \<Rightarrow> string" where
  "json_dumps_str x = [CHR 0x22] @ concat (map json_escape x) @ [CHR 0x22]"

text \<open>\<^verbatim>\<open>json.dumps({k: v})\<close> for a dict of one str key and one str value.\<close>

definition json_dumps_dict1 :: "string \<Rightarrow> string \<Rightarrow> string" where
  "json_dumps_dict1 k v = ''{'' @ json_dumps_str k @ '': '' @ json_dumps_str v @ ''}''"

definition FRAMES_PER_BUFFER :: nat where
  "FRAMES_PER_BUFFER = 3200"

text \<open>
  The audio stream is opened with \<^verbatim>\<open>paInt16\<close> and one channel: a frame is one sample of two
  bytes. The device is the sequence of bytes it delivers; \<^verbatim>\<open>stream.read(n)\<close> returns the next
  \<open>n\<close> frames. With \<^verbatim>\<open>exception_on_overflow=False\<close> an input overflow is not raised.
\<close>

type_synonym audio = "nat \<Rightarrow> byte"

definition stream_read :: "audio \<Rightarrow> session \<Rightarrow> nat \<Rightarrow> byte list \<times> session" where
  "stream_read mic s n =
     (map mic [2 * frames_read s ..< 2 * (frames_read s + n)],
      s\<lparr>frames_read := frames_read s + n\<rparr>)"

text \<open>
  One pass through the body of the \<^verbatim>\<open>while\<close> loop of \<^verbatim>\<open>send_audio\<close>. \<open>send_raises\<close> is what
  \<^verbatim>\<open>websocket.send\<close> does when it is called: it returns (\<open>None\<close>), and the message has
  been handed over to the connection, or it raises, and nothing has been transmitted.
\<close>

definition send_body :: "audio \<Rightarrow> session \<Rightarrow> py_error option \<Rightarrow> outcome" where
  "send_body mic s send_raises =
     (if transcribing s then
        (let (data, s1) = stream_read mic s FRAMES_PER_BUFFER;
             encoded_data = b64encode data;
             message = json_dumps_dict1 ''audio_data'' encoded_data;
             s2 = s1\<lparr>sent := sent s1 @ [message]\<rparr>
         in case send_raises of
              Some e \<Rightarrow> Raised e s2
            | None \<Rightarrow> Normal (s2\<lparr>transmitted := transmitted s2 @ [message]\<rparr>))
      else Normal s)"

section \<open>The toggle and the stop signal\<close>

datatype key = Space | Esc | OtherKey

definition toggle_transcription :: "session \<Rightarrow> session" where
  "toggle_transcription s =
     (let s1 = s\<lparr>transcribing := \<not> transcribing s\<rparr>;
          status = (if transcribing s1 then ''started'' else ''paused'')
      in py_print (''Transcription '' @ status @ ''. Press spacebar to toggle...'' @ NL) s1)"

text \<open>\<^verbatim>\<open>on_key_press\<close>; the second component is \<open>False\<close> when the handler returns \<^verbatim>\<open>False\<close>,
  which stops the listener. Time is not modelled: the delays of \<^verbatim>\<open>time.sleep\<close> and
  \<^verbatim>\<open>asyncio.sleep\<close> have no counterpart.\<close>

fun on_key_press :: "session \<Rightarrow> key \<Rightarrow> session \<times> bool" where
  "on_key_press s Space = (toggle_transcription s, True)"
| "on_key_press s Esc =
     ((py_print ''Exiting transcription.'' s)\<lparr>stop_transcription := True\<rparr>, False)"
| "on_key_press s OtherKey = (s, True)"

section \<open>The Channel Supervisor and the process\<close>

text \<open>
  The program as a transition system. Its control is in one of three places: waiting in
  \<^verbatim>\<open>websockets.connect\<close>; inside \<^verbatim>\<open>asyncio.gather\<close> with the two tasks, each of which is at
  its loop test, waiting in an \<^verbatim>\<open>await\<close>, or ended; or out of \<^verbatim>\<open>send_receive\<close>, which returned
  (\<open>None\<close>) or raised. \<open>listening\<close> says whether the keyboard listener still runs.

  \<^verbatim>\<open>gather\<close> does not cancel the other task when one task raises. When the supervisor
  absorbs the exception and goes round its loop, the other task of the old connection is
  still scheduled: \<open>old_senders\<close> counts such sender tasks (each is at its loop test
  between iterations) and \<open>old_receivers\<close> holds such receiver tasks. What they raise is
  retrieved by nobody. When \<^verbatim>\<open>send_receive\<close> is left, \<^verbatim>\<open>asyncio.run\<close> cancels them.
\<close>

datatype task = AtTest | Awaiting | Ended

datatype control = Connecting | Streaming task task | Exited "py_error option"

record program =
  sess :: session
  ctl :: control
  listening :: bool
  old_senders :: nat
  old_receivers :: "task list"

text \<open>
  What happens next is decided outside the program: a key is pressed, \<^verbatim>\<open>connect\<close> returns or
  raises, the sender task runs one iteration (with what \<^verbatim>\<open>send\<close> will do), the receiver
  task reaches its loop test, or its pending \<^verbatim>\<open>recv\<close> completes; and the same three for a
  task of an old connection (the receiver tasks by their position in \<open>old_receivers\<close>). An
  event that the program is not waiting for leaves it as it is.
\<close>

datatype event =
    Key key
  | Connect "py_error option"
  | Audio "py_error option"
  | Wake
  | Inbound inbound
  | OldAudio "py_error option"
  | OldWake nat
  | OldInbound nat inbound

definition idle_marker :: string where
  "idle_marker = ''Session idle for too long''"

text \<open>The test of \<^verbatim>\<open>while not self.stop_transcription\<close> in \<^verbatim>\<open>send_receive\<close>.\<close>

definition loop_test :: "session \<Rightarrow> control" where
  "loop_test s = (if stop_transcription s then Exited None else Connecting)"

text \<open>The three \<^verbatim>\<open>except\<close> clauses of \<^verbatim>\<open>send_receive\<close>, in their order.\<close>

fun except_clauses :: "session \<Rightarrow> py_error \<Rightarrow> session \<times> control" where
  "except_clauses s (ConnectionClosedError m) =
     (if \<not> str_contains idle_marker m then (s, Exited (Some (ConnectionClosedError m)))
      else (s, loop_test s))"
| "except_clauses s CancelledError = (s, Exited None)"
| "except_clauses s e = (s\<lparr>reported := reported s @ [e]\<rparr>, Exited None)"

definition raise_in :: "program \<Rightarrow> session \<Rightarrow> py_error \<Rightarrow> program" where
  "raise_in p s e = (let (s', c) = except_clauses s e in p\<lparr>sess := s', ctl := c\<rparr>)"

text \<open>The tasks that \<^verbatim>\<open>gather\<close> leaves behind when it raises: those that have not ended.\<close>

definition abandon :: "program \<Rightarrow> task \<Rightarrow> task \<Rightarrow> program" where
  "abandon p snd_task rcv_task =
     p\<lparr>old_senders := old_senders p + (if snd_task = Ended then 0 else 1),
       old_receivers := old_receivers p @ (if rcv_task = Ended then [] else [rcv_task])\<rparr>"

text \<open>\<^verbatim>\<open>gather\<close> returns once both tasks have ended; the supervisor is then at its loop test.\<close>

definition gathering :: "program \<Rightarrow> session \<Rightarrow> task \<Rightarrow> task \<Rightarrow> program" where
  "gathering p s snd_task rcv_task =
     (if snd_task = Ended \<and> rcv_task = Ended then p\<lparr>sess := s, ctl := loop_test s\<rparr>
      else p\<lparr>sess := s, ctl := Streaming snd_task rcv_task\<rparr>)"

fun step :: "service \<Rightarrow> audio \<Rightarrow> program \<Rightarrow> event \<Rightarrow> program" where
  "step svc mic p (Key k) =
     (if listening p then
        (let (s', keep) = on_key_press (sess p) k in p\<lparr>sess := s', listening := keep\<rparr>)
      else p)"
| "step svc mic p (Connect r) =
     (case ctl p of
        Connecting \<Rightarrow>
          (let s1 = (sess p)\<lparr>connects := connects (sess p) + 1\<rparr> in
           case r of
             Some e \<Rightarrow> raise_in p s1 e
           | None \<Rightarrow>
               (let s2 = (if \<not> transcribing s1
                          then py_print ''Press spacebar to start transcription.'' s1 else s1)
                in p\<lparr>sess := s2, ctl := Streaming AtTest AtTest\<rparr>))
      | _ \<Rightarrow> p)"
| "step svc mic p (Audio r) =
     (case ctl p of
        Streaming AtTest rcv_task \<Rightarrow>
          (if stop_transcription (sess p) then gathering p (sess p) Ended rcv_task
           else case send_body mic (sess p) r of
                  Raised e s' \<Rightarrow> raise_in (abandon p Ended rcv_task) s' e
                | Normal s' \<Rightarrow> p\<lparr>sess := s'\<rparr>)
      | _ \<Rightarrow> p)"
| "step svc mic p Wake =
     (case ctl p of
        Streaming snd_task AtTest \<Rightarrow>
          (if stop_transcription (sess p) then gathering p (sess p) snd_task Ended
           else p\<lparr>ctl := Streaming snd_task Awaiting\<rparr>)
      | _ \<Rightarrow> p)"
| "step svc mic p (Inbound i) =
     (case ctl p of
        Streaming snd_task Awaiting \<Rightarrow>
          (case receive_body svc (sess p) i of
             Raised e s' \<Rightarrow> raise_in (abandon p snd_task Ended) s' e
           | Normal s' \<Rightarrow> p\<lparr>sess := s', ctl := Streaming snd_task AtTest\<rparr>)
      | _ \<Rightarrow> p)"
| "step svc mic p (OldAudio r) =
     (case ctl p of
        Exited x \<Rightarrow> p
      | _ \<Rightarrow>
          if old_senders p = 0 then p
          else if stop_transcription (sess p) then p\<lparr>old_senders := old_senders p - 1\<rparr>
          else case send_body mic (sess p) r of
                 Raised e s' \<Rightarrow> p\<lparr>sess := s', old_senders := old_senders p - 1\<rparr>
               | Normal s' \<Rightarrow> p\<lparr>sess := s'\<rparr>)"
| "step svc mic p (OldWake k) =
     (case ctl p of
        Exited x \<Rightarrow> p
      | _ \<Rightarrow>
          if k < length (old_receivers p) \<and> old_receivers p ! k = AtTest then
            p\<lparr>old_receivers := (old_receivers p)
                 [k := (if stop_transcription (sess p) then Ended else Awaiting)]\<rparr>
          else p)"
| "step svc mic p (OldInbound k i) =
     (case ctl p of
        Exited x \<Rightarrow> p
      | _ \<Rightarrow>
          if k < length (old_receivers p) \<and> old_receivers p ! k = Awaiting then
            (case receive_body svc (sess p) i of
               Raised e s' \<Rightarrow> p\<lparr>sess := s', old_receivers := (old_receivers p)[k := Ended]\<rparr>
             | Normal s' \<Rightarrow> p\<lparr>sess := s', old_receivers := (old_receivers p)[k := AtTest]\<rparr>)
          else p)"

definition run_events :: "service \<Rightarrow> audio \<Rightarrow> program \<Rightarrow> event list \<Rightarrow> program" where
  "run_events svc mic p evs = foldl (step svc mic) p evs"

text \<open>
  \<^verbatim>\<open>run\<close> after \<^verbatim>\<open>__init__\<close>: the listener is started and \<^verbatim>\<open>send_receive\<close> has passed its first
  loop test (the stop flag is \<^verbatim>\<open>False\<close>).
\<close>

definition start :: "string \<Rightarrow> string \<Rightarrow> string \<Rightarrow> string \<Rightarrow> program" where
  "start system_prompt ai_model uname iname =
     \<lparr>sess = init system_prompt ai_model uname iname, ctl = Connecting, listening = True,
      old_senders = 0, old_receivers = []\<rparr>"

text \<open>
  The exit status of the process, once it has one. An exception that leaves
  \<^verbatim>\<open>send_receive\<close> leaves \<^verbatim>\<open>asyncio.run\<close> and \<^verbatim>\<open>run\<close> uncaught: status 1. When
  \<^verbatim>\<open>send_receive\<close> returns, \<^verbatim>\<open>run\<close> waits in \<^verbatim>\<open>listener.join()\<close> until the listener has
  stopped, and the process ends with status 0.
\<close>

definition exit_status :: "program \<Rightarrow> nat option" where
  "exit_status p =
     (case ctl p of
        Exited (Some e) \<Rightarrow> Some 1
      | Exited None \<Rightarrow> (if listening p then None else Some 0)
      | _ \<Rightarrow> None)"

section \<open>Notions used to state the properties\<close>

text \<open>The text that a yielded content adds to the reply: nothing for \<^verbatim>\<open>None\<close>.\<close>

definition increment :: "string option \<Rightarrow> string" where
  "increment c = (case c of None \<Rightarrow> [] | Some x \<Rightarrow> x)"

text \<open>What the generator yields for an answer of the service, and how it ends.\<close>

definition generated :: "completion \<Rightarrow> string option list \<times> py_error option" where
  "generated c = (case c of CreateRaises e \<Rightarrow> ([], Some e) | Stream rs e \<Rightarrow> yields rs e)"

text \<open>
  A final-type transcript event: a JSON object whose \<open>message_type\<close> is the string
  \<open>FinalTranscript\<close> and whose \<open>text\<close> is a string; \<open>final_text\<close> gives that text.
\<close>

definition final_text :: "json \<Rightarrow> string option" where
  "final_text j =
     (case j of
        JObj kvs \<Rightarrow>
          (case (map_of kvs ''message_type'', map_of kvs ''text'') of
             (Some mt, Some (JStr t)) \<Rightarrow> if mt = JStr ''FinalTranscript'' then Some t else None
           | _ \<Rightarrow> None)
      | _ \<Rightarrow> None)"



text \<open>
  The event \<open>ev\<close> makes the \<^verbatim>\<open>try\<close> block of \<^verbatim>\<open>send_receive\<close> raise \<open>e\<close>: \<^verbatim>\<open>connect\<close> raises it,
  or the iteration of the receiver task that the event starts raises it (in \<^verbatim>\<open>recv\<close>, in
  \<^verbatim>\<open>json.loads\<close>, in the tests on the event, or in the processing of the utterance), or
  the iteration of the sender task raises it (in \<^verbatim>\<open>send\<close>).
\<close>

definition raised_by :: "outcome \<Rightarrow> py_error \<Rightarrow> bool" where
  "raised_by out e = (case out of Raised e' s' \<Rightarrow> e' = e | Normal s' \<Rightarrow> False)"

definition raising :: "service \<Rightarrow> audio \<Rightarrow> program \<Rightarrow> event \<Rightarrow> py_error \<Rightarrow> bool" where
  "raising svc mic p ev e =
     (case ev of
        Connect r \<Rightarrow> ctl p = Connecting \<and> r = Some e
      | Inbound i \<Rightarrow>
          raised_by (receive_body svc (sess p) i) e
          \<and> (case ctl p of Streaming a Awaiting \<Rightarrow> True | _ \<Rightarrow> False)
      | Audio r \<Rightarrow>
          raised_by (send_body mic (sess p) r) e \<and> \<not> stop_transcription (sess p)
          \<and> (case ctl p of Streaming AtTest b \<Rightarrow> True | _ \<Rightarrow> False)
      | _ \<Rightarrow> False)"

text \<open>The roles of the Conversation Log, and those of the turns appended after creation.\<close>

definition log_role :: "message \<Rightarrow> bool" where
  "log_role m = (role m = ''system'' \<or> role m = ''user'' \<or> role m = ''assistant'')"

definition turn_role :: "message \<Rightarrow> bool" where
  "turn_role m = (role m = ''user'' \<or> role m = ''assistant'')"

text \<open>
  From \<open>s\<close> to \<open>s'\<close> the Conversation Log was only appended to, by \<open>user\<close> and \<open>assistant\<close>
  turns, and every completion request made in between carried a log that extends the log
  of \<open>s\<close>.
\<close>

definition log_grows :: "session \<Rightarrow> session \<Rightarrow> bool" where
  "log_grows s s' =
     (prefix (messages s) (messages s')
      \<and> list_all turn_role (drop (length (messages s)) (messages s'))
      \<and> prefix (requests s) (requests s')
      \<and> list_all (\<lambda>r. prefix (messages s) (snd r)) (drop (length (requests s)) (requests s')))"

subsection \<open>Concrete inputs\<close>

definition final_event :: "string \<Rightarrow> json" where
  "final_event t = JObj [(''message_type'', JStr ''FinalTranscript''), (''text'', JStr t)]"


definition session_begins :: json where
  "session_begins = JObj [(''message_type'', JStr ''SessionBegins''), (''session_id'', JStr ''a1'')]"

definition demo_service :: service where
  "demo_service m ms = Stream [[Some ''Hi''], [Some ''''], [Some '' back'']] None"

definition failing_service :: service where
  "failing_service m ms = CreateRaises (OtherException ''Connection error.'')"





definition silence :: audio where
  "silence i = 0"

definition demo_session :: session where
  "demo_session = init ''You are a helpful assistant.'' ''gpt-4'' ''Me'' ''Interviewer''"

definition demo_program :: program where
  "demo_program = start ''You are a helpful assistant.'' ''gpt-4'' ''Me'' ''Interviewer''"

text \<open>The program once the first connection is up and the receiver waits in \<^verbatim>\<open>recv\<close>.\<close>

definition demo_streaming :: program where
  "demo_streaming = run_events demo_service silence demo_program [Connect None, Wake]"

definition idle_close :: py_error where
  "idle_close = ConnectionClosedError
     ''received 4031 (private use) Session idle for too long; then sent 4031''"

definition abnormal_close :: py_error where
  "abnormal_close = ConnectionClosedError ''no close frame received or sent''"

section \<open>Properties\<close>

subsection \<open>Helper lemmas: the processor and the receiver in closed form\<close>

lemma in_keys_iff: "k \<in> fst ` set kvs \<longleftrightarrow> map_of kvs k \<noteq> None"
  by (simp add: map_of_eq_None_iff)

lemma receive_body_final:
  assumes "final_text j = Some t"
  shows "receive_body svc s (Parsed j) =
     (if transcribing s then Normal (s\<lparr>user_message := user_message s @ t\<rparr>)
      else handoff svc (s\<lparr>user_message := user_message s @ t\<rparr>))"
  using assms
  by (auto simp: final_text_def receive_body_def in_keys_iff Let_def
      split: json.splits option.splits if_splits)

lemma receive_body_not_final:
  assumes "final_text j = None"
  shows "state_of (receive_body svc s (Parsed j)) = s"
proof (cases j)
  case (JObj kvs)
  then show ?thesis using assms
    by (auto simp: final_text_def receive_body_def in_keys_iff Let_def
      split: json.splits option.splits if_splits sum.splits bool.splits)
qed (auto simp: receive_body_def split: sum.splits bool.splits)

lemma consume_eq:
  "consume cs s =
     s\<lparr>stdout := stdout s @ filter (\<lambda>x. x \<noteq> []) (map increment cs),
       assistant_message := assistant_message s @ concat (map increment cs)\<rparr>"
  by (induction cs s rule: consume.induct) (simp_all add: increment_def py_print_end_def)

lemma process_transcripts_eq:
  "process_transcripts svc s t =
    (let ys = fst (generated (svc (model s) (messages s)));
         s4 = s\<lparr>processed := processed s @ [t],
               stdout := stdout s @ [''Processing...'' @ NL @ NL, user_name s @ '': '']
                  @ filter (\<lambda>x. x \<noteq> []) (map increment ys),
               requests := requests s @ [(model s, messages s)],
               assistant_message := assistant_message s @ concat (map increment ys)\<rparr>
     in case snd (generated (svc (model s) (messages s))) of
          Some e \<Rightarrow> Raised e s4
        | None \<Rightarrow>
            Normal (s4\<lparr>messages := messages s @
                         [\<lparr>role = ''assistant'',
                           content = assistant_message s @ concat (map increment ys)\<rparr>],
                       stdout := stdout s4 @
                         [NL @ NL @ ''Press spacebar to continue transcription.'' @ NL],
                       assistant_message := []\<rparr>))"
  by (simp add: process_transcripts_def get_response_from_openai_def generated_def Let_def
      py_print_def py_print_end_def append_message_def consume_eq
      split: completion.splits prod.splits option.splits)

lemma handoff_eq:
  "handoff svc s =
    (let u = \<lparr>role = ''user'', content = user_message s\<rparr>;
         s2 = s\<lparr>stdout := stdout s @ [interviewer_name s @ '': '' @ user_message s @ NL @ NL],
               messages := messages s @ [u]\<rparr>
     in case process_transcripts svc s2 (user_message s) of
          Raised e s3 \<Rightarrow> Raised e s3
        | Normal s3 \<Rightarrow> Normal (s3\<lparr>user_message := []\<rparr>))"
  by (simp add: handoff_def Let_def py_print_def append_message_def)

lemma final_text_final_event: "final_text (final_event t) = Some t"
  by (simp add: final_text_def final_event_def)

lemma demo_session_fields:
  "model demo_session = ''gpt-4''"
  "user_message demo_session = []"
  "assistant_message demo_session = []"
  "user_name demo_session = ''Me''"
  "interviewer_name demo_session = ''Interviewer''"
  "\<not> transcribing demo_session"
  "\<not> stop_transcription demo_session"
  "stdout demo_session = []"
  "requests demo_session = []"
  "processed demo_session = []"
  "messages demo_session =
     [\<lparr>role = ''system'', content = ''You are a helpful assistant.''\<rparr>,
      \<lparr>role = ''user'', content = style_note\<rparr>]"
  by (simp_all add: demo_session_def init_def append_message_def)

lemma generated_demo: "generated (demo_service m ms) = ([Some ''Hi'', Some '''', Some '' back''], None)"
  by (simp add: generated_def demo_service_def)

lemma generated_failing:
  "generated (failing_service m ms) = ([], Some (OtherException ''Connection error.''))"
  by (simp add: generated_def failing_service_def)

subsection \<open>The Conversation Processor on a stream that ends\<close>




subsection \<open>A failing completion\<close>

lemma process_transcripts_fails:
  assumes "snd (generated (svc (model s) (messages s))) = Some e"
  shows "\<exists>s'. process_transcripts svc s t = Raised e s' \<and> messages s' = messages s
     \<and> requests s' = requests s @ [(model s, messages s)]"
  using assms by (simp add: process_transcripts_eq Let_def)




text \<open>Every service is the client on some endpoint: one that refuses without leave to retry
  where the service raises.\<close>

lemma service_as_client:
  "openai_client
     (\<lambda>m ms k. case svc m ms of CreateRaises e \<Rightarrow> Refused e False | Stream rs e \<Rightarrow> Accepted rs e)
   = svc"
  by (rule ext, rule ext)
    (simp add: openai_client_def DEFAULT_MAX_RETRIES_def numeral_2_eq_2 split: completion.splits)




subsection \<open>Hand-off of an utterance\<close>

text \<open>
  Claim C1, as the code has it. For a final-type event with text \<open>t\<close> that arrives while the
  toggle is paused: \<open>process_transcripts\<close> is called exactly once, with the buffer contents
  including the text of this event; the Conversation Log gains exactly one \<open>user\<close> entry with
  that content; when the processor returns, the log holds the assistant's entry after it and
  the buffer is reset to the empty string; when the processor raises, the exception leaves
  the loop body and the buffer still holds the text. Pressing the space bar alone (the
  toggle transition) changes neither the log nor the buffer and calls nothing.
\<close>

theorem handoff_on_final_while_paused:
  assumes "final_text ev = Some t" and "\<not> transcribing s"
  shows "(let u = \<lparr>role = ''user'', content = user_message s @ t\<rparr>;
              out = receive_body svc s (Parsed ev)
          in processed (state_of out) = processed s @ [user_message s @ t]
           \<and> (case snd (generated (svc (model s) (messages s @ [u]))) of
                None \<Rightarrow>
                  (\<exists>s' a. out = Normal s' \<and> messages s' = messages s @ [u, a]
                     \<and> role a = ''assistant'' \<and> user_message s' = [])
              | Some e \<Rightarrow>
                  (\<exists>s'. out = Raised e s' \<and> messages s' = messages s @ [u]
                     \<and> user_message s' = user_message s @ t)))
       \<and> messages (fst (on_key_press s Space)) = messages s
       \<and> user_message (fst (on_key_press s Space)) = user_message s
       \<and> processed (fst (on_key_press s Space)) = processed s"
  using assms
  by (simp add: receive_body_final handoff_eq process_transcripts_eq Let_def
      toggle_transcription_def py_print_def split: option.splits)

theorem handoff_on_final_while_paused_witness:
  "processed (state_of (receive_body demo_service (demo_session\<lparr>user_message := ''Hello ''\<rparr>)
       (Parsed (final_event ''there.'')))) = [''Hello there.'']
   \<and> (\<exists>s' a. receive_body demo_service (demo_session\<lparr>user_message := ''Hello ''\<rparr>)
          (Parsed (final_event ''there.'')) = Normal s'
        \<and> messages s' = messages demo_session @ [\<lparr>role = ''user'', content = ''Hello there.''\<rparr>, a]
        \<and> role a = ''assistant'' \<and> user_message s' = [])"
  using handoff_on_final_while_paused [of "final_event ''there.''" "''there.''"
      "demo_session\<lparr>user_message := ''Hello ''\<rparr>" demo_service]
  by (simp add: final_text_final_event generated_demo demo_session_fields Let_def)

text \<open>
  The claim as written fails where the completion service raises: the buffer is not reset.
\<close>

theorem buffer_kept_when_completion_fails:
  "final_text (final_event ''there.'') = Some ''there.''
   \<and> \<not> transcribing (demo_session\<lparr>user_message := ''Hello ''\<rparr>)
   \<and> user_message (demo_session\<lparr>user_message := ''Hello ''\<rparr>) = ''Hello ''
   \<and> user_message (state_of (receive_body failing_service
         (demo_session\<lparr>user_message := ''Hello ''\<rparr>) (Parsed (final_event ''there.''))))
       = ''Hello there.''"
  by (simp add: final_text_final_event receive_body_final handoff_eq process_transcripts_eq
      generated_failing demo_session_fields Let_def)

text \<open>
  Claim C10. A final-type event with empty text that arrives while paused and with an empty
  buffer is handed off all the same: a \<open>user\<close> entry with empty content is appended to the
  Conversation Log, \<open>process_transcripts\<close> is called with the empty string, and the request
  to the completion service is made with that log.
\<close>

theorem empty_final_while_paused:
  assumes "final_text ev = Some []" and "\<not> transcribing s" and "user_message s = []"
  shows "\<exists>rest. messages (state_of (receive_body svc s (Parsed ev))) =
            messages s @ \<lparr>role = ''user'', content = []\<rparr> # rest
     \<and> processed (state_of (receive_body svc s (Parsed ev))) = processed s @ [[]]
     \<and> requests (state_of (receive_body svc s (Parsed ev))) =
          requests s @ [(model s, messages s @ [\<lparr>role = ''user'', content = []\<rparr>])]"
  using assms
  by (simp add: receive_body_final handoff_eq process_transcripts_eq Let_def
      split: option.splits)

theorem empty_final_while_paused_witness:
  "\<exists>rest. messages (state_of (receive_body demo_service demo_session (Parsed (final_event [])))) =
            messages demo_session @ \<lparr>role = ''user'', content = []\<rparr> # rest
     \<and> processed (state_of (receive_body demo_service demo_session (Parsed (final_event []))))
          = [[]]
     \<and> requests (state_of (receive_body demo_service demo_session (Parsed (final_event [])))) =
          [(''gpt-4'', messages demo_session @ [\<lparr>role = ''user'', content = []\<rparr>])]"
  using empty_final_while_paused [of "final_event []" demo_session demo_service]
  by (simp add: final_text_final_event demo_session_fields)

subsection \<open>Accumulation while the toggle is active\<close>



subsection \<open>Helper lemmas: the supervisor\<close>

lemma except_clauses_frame:
  "messages (fst (except_clauses s e)) = messages s"
  "requests (fst (except_clauses s e)) = requests s"
  "user_message (fst (except_clauses s e)) = user_message s"
  "connects (fst (except_clauses s e)) = connects s"
  "stop_transcription (fst (except_clauses s e)) = stop_transcription s"
  by (cases e; simp)+

lemma raise_in_sess: "sess (raise_in p s e) = fst (except_clauses s e)"
  by (simp add: raise_in_def split: prod.splits)

lemma raise_in_listening: "listening (raise_in p s e) = listening p"
  by (simp add: raise_in_def split: prod.splits)

lemma raise_in_cases:
  "raise_in p s e =
     (case e of
        ConnectionClosedError m \<Rightarrow>
          (if str_contains idle_marker m then p\<lparr>sess := s, ctl := loop_test s\<rparr>
           else p\<lparr>sess := s, ctl := Exited (Some e)\<rparr>)
      | CancelledError \<Rightarrow> p\<lparr>sess := s, ctl := Exited None\<rparr>
      | _ \<Rightarrow> p\<lparr>sess := s\<lparr>reported := reported s @ [e]\<rparr>, ctl := Exited None\<rparr>)"
  by (cases e) (simp_all add: raise_in_def)

lemma on_key_press_frame:
  "messages (fst (on_key_press s k)) = messages s"
  "requests (fst (on_key_press s k)) = requests s"
  "user_message (fst (on_key_press s k)) = user_message s"
  "processed (fst (on_key_press s k)) = processed s"
  "connects (fst (on_key_press s k)) = connects s"
  by (cases k; simp add: toggle_transcription_def py_print_def Let_def)+

lemma step_exited:
  assumes "ctl p = Exited x"
  shows "ctl (step svc mic p ev) = Exited x
     \<and> connects (sess (step svc mic p ev)) = connects (sess p)"
proof (cases ev)
  case (Key k)
  then show ?thesis using assms
    by (simp add: on_key_press_frame split: prod.splits)
      (metis fst_conv on_key_press_frame(5))
qed (use assms in auto)

lemma run_events_exited:
  assumes "ctl p = Exited x"
  shows "ctl (run_events svc mic p evs) = Exited x
     \<and> connects (sess (run_events svc mic p evs)) = connects (sess p)"
  using assms unfolding run_events_def
proof (induction evs arbitrary: p)
  case Nil
  then show ?case by simp
next
  case (Cons ev evs)
  from step_exited[OF Cons.prems, of svc mic ev] Cons.IH[of "step svc mic p ev"]
  show ?case by simp
qed

lemma run_events_listening_exited:
  assumes "ctl p = Exited None"
  shows "exit_status (run_events svc mic p evs) =
     (if listening (run_events svc mic p evs) then None else Some 0)"
  using run_events_exited[OF assms, of svc mic evs] by (simp add: exit_status_def)

lemma exit_status_after_esc:
  assumes "ctl q = Exited None"
  shows "exit_status (step svc mic q (Key Esc)) = Some 0"
  using assms by (simp add: exit_status_def py_print_def)

lemma exit_status_raised:
  assumes "ctl p = Exited (Some e)"
  shows "exit_status (run_events svc mic p evs) = Some 1"
  using run_events_exited[OF assms, of svc mic evs] by (simp add: exit_status_def)

lemma receive_body_frame:
  "stop_transcription (state_of (receive_body svc s i)) = stop_transcription s"
  "reported (state_of (receive_body svc s i)) = reported s"
proof -
  have "stop_transcription (state_of (receive_body svc s i)) = stop_transcription s
      \<and> reported (state_of (receive_body svc s i)) = reported s"
  proof (cases i)
    case (Parsed j)
    show ?thesis
    proof (cases "final_text j")
      case None
      with Parsed show ?thesis by (simp add: receive_body_not_final)
    next
      case (Some t)
      with Parsed show ?thesis
        by (simp add: receive_body_final handoff_eq process_transcripts_eq Let_def
            split: option.splits)
    qed
  qed (simp_all add: receive_body_def)
  then show "stop_transcription (state_of (receive_body svc s i)) = stop_transcription s"
    and "reported (state_of (receive_body svc s i)) = reported s"
    by simp_all
qed

lemma send_body_keeps:
  "stop_transcription (state_of (send_body mic s r)) = stop_transcription s"
  "reported (state_of (send_body mic s r)) = reported s"
  by (simp_all add: send_body_def stream_read_def Let_def split: option.splits)

lemma raising_step:
  assumes "raising svc mic p ev e"
  shows "\<exists>q s. step svc mic p ev = raise_in q s e
     \<and> stop_transcription s = stop_transcription (sess p) \<and> reported s = reported (sess p)
     \<and> listening q = listening p"
proof (cases ev)
  case (Connect r)
  with assms have "step svc mic p ev = raise_in p ((sess p)\<lparr>connects := connects (sess p) + 1\<rparr>) e"
    by (simp add: raising_def)
  then show ?thesis by (intro exI conjI) (assumption, simp_all)
next
  case (Inbound i)
  with assms obtain a s' where c: "ctl p = Streaming a Awaiting"
    and r: "receive_body svc (sess p) i = Raised e s'"
    by (auto simp: raising_def raised_by_def split: control.splits task.splits outcome.splits)
  from receive_body_frame[of svc "sess p" i] r
  have f: "stop_transcription s' = stop_transcription (sess p)" "reported s' = reported (sess p)"
    by simp_all
  from Inbound c r have "step svc mic p ev = raise_in (abandon p a Ended) s' e" by simp
  with f show ?thesis
    by (intro exI[of _ "abandon p a Ended"] exI[of _ s']) (simp add: abandon_def)
next
  case (Audio r)
  with assms obtain b s' where c: "ctl p = Streaming AtTest b"
    and running: "\<not> stop_transcription (sess p)"
    and r: "send_body mic (sess p) r = Raised e s'"
    by (auto simp: raising_def raised_by_def split: control.splits task.splits outcome.splits)
  from send_body_keeps[of mic "sess p" r] r
  have f: "stop_transcription s' = stop_transcription (sess p)" "reported s' = reported (sess p)"
    by simp_all
  from Audio c r running have "step svc mic p ev = raise_in (abandon p Ended b) s' e" by simp
  with f show ?thesis
    by (intro exI[of _ "abandon p Ended b"] exI[of _ s']) (simp add: abandon_def)
qed (use assms in \<open>simp_all add: raising_def\<close>)

lemma connect_counts:
  assumes "ctl p = Connecting"
  shows "connects (sess (step svc mic p (Connect r))) = connects (sess p) + 1"
  using assms
  by (cases r) (simp_all add: raise_in_sess except_clauses_frame py_print_def Let_def)

subsection \<open>The supervisor's handling of exceptions\<close>

text \<open>
  Claim C3, as the code has it. Let the \<^verbatim>\<open>try\<close> block of \<open>send_receive\<close> raise \<open>e\<close>: from
  \<^verbatim>\<open>connect\<close>, from an iteration of the receiver (its \<^verbatim>\<open>recv\<close>, \<^verbatim>\<open>json.loads\<close>, the
  processing of an utterance) or from an iteration of the sender (its \<^verbatim>\<open>send\<close>).
  \<^item> A \<open>ConnectionClosedError\<close> whose text contains the idle marker is absorbed: with the stop
    flag unset the supervisor is connecting again, the process has no exit status, and the
    next result of \<^verbatim>\<open>connect\<close> counts as one more connection attempt; with the stop flag set
    the loop ends and \<open>send_receive\<close> returns.
  \<^item> A \<open>ConnectionClosedError\<close> without the marker is raised again: it leaves \<open>send_receive\<close>,
    the exit status is 1 and stays 1, and no further connection is attempted whatever
    happens next.
  \<^item> \<open>CancelledError\<close> ends the loop by \<^verbatim>\<open>break\<close> and is not reported. Every other exception
    is reported by \<^verbatim>\<open>print\<close> and ends the loop by \<^verbatim>\<open>break\<close>. In both cases \<open>send_receive\<close>
    returns, no further connection is attempted, and the process has no exit status while
    the key listener runs and status 0 once the listener has stopped, which \<^verbatim>\<open>Esc\<close> brings
    about.
\<close>

theorem supervisor_exception_handling:
  assumes "raising svc mic p ev e"
  shows "(let p' = step svc mic p ev; q = run_events svc mic p' evs in
     (case e of
        ConnectionClosedError m \<Rightarrow>
          (if str_contains idle_marker m then
             (if stop_transcription (sess p) then
                ctl p' = Exited None
                \<and> exit_status q = (if listening q then None else Some 0)
              else ctl p' = Connecting \<and> exit_status p' = None
                 \<and> connects (sess (step svc mic p' (Connect r))) = connects (sess p') + 1)
           else ctl p' = Exited (Some e) \<and> exit_status p' = Some 1 \<and> exit_status q = Some 1
              \<and> connects (sess q) = connects (sess p'))
      | CancelledError \<Rightarrow>
          ctl p' = Exited None \<and> reported (sess p') = reported (sess p)
          \<and> connects (sess q) = connects (sess p')
          \<and> exit_status q = (if listening q then None else Some 0)
          \<and> exit_status (step svc mic q (Key Esc)) = Some 0
      | _ \<Rightarrow>
          ctl p' = Exited None \<and> reported (sess p') = reported (sess p) @ [e]
          \<and> connects (sess q) = connects (sess p')
          \<and> exit_status q = (if listening q then None else Some 0)
          \<and> exit_status (step svc mic q (Key Esc)) = Some 0))"
proof -
  from raising_step[OF assms] obtain q0 s where
    st: "step svc mic p ev = raise_in q0 s e"
    and stop: "stop_transcription s = stop_transcription (sess p)"
    and rep: "reported s = reported (sess p)"
    by blast
  let ?p' = "raise_in q0 s e"
  let ?q = "run_events svc mic ?p' evs"
  have ex: "ctl ?p' = Exited x \<Longrightarrow> connects (sess ?q) = connects (sess ?p') \<and> ctl ?q = Exited x"
    for x
    using run_events_exited by blast
  have normal: "ctl ?p' = Exited None \<Longrightarrow>
      exit_status ?q = (if listening ?q then None else Some 0)
      \<and> exit_status (step svc mic ?q (Key Esc)) = Some 0"
    using run_events_listening_exited exit_status_after_esc ex by blast
  have plain: ?thesis
    if c: "ctl ?p' = Exited None" and r: "reported (sess ?p') = reported (sess p) @ [e]"
      and e: "(case e of ConnectionClosedError m \<Rightarrow> False | CancelledError \<Rightarrow> False | _ \<Rightarrow> True)"
    using ex[OF c] normal[OF c] c r e st
    by (cases e) (simp_all add: Let_def)
  show ?thesis
  proof (cases e)
    case (ConnectionClosedError m)
    show ?thesis
    proof (cases "str_contains idle_marker m")
      case True
      show ?thesis
      proof (cases "stop_transcription (sess p)")
        case stopped: True
        with True ConnectionClosedError stop have c: "ctl ?p' = Exited None"
          by (simp add: raise_in_cases loop_test_def)
        from normal[OF c] c True stopped ConnectionClosedError st show ?thesis
          by (simp add: Let_def)
      next
        case running: False
        with True ConnectionClosedError stop have c: "ctl ?p' = Connecting"
          by (simp add: raise_in_cases loop_test_def)
        from connect_counts[OF c, of svc mic r] c True running ConnectionClosedError st
        show ?thesis
          by (simp add: Let_def exit_status_def del: step.simps)
      qed
    next
      case False
      with ConnectionClosedError have c: "ctl ?p' = Exited (Some e)"
        by (simp add: raise_in_cases)
      from ex[OF c] exit_status_raised[OF c, of svc mic evs] c False ConnectionClosedError st
      show ?thesis
        by (simp add: Let_def exit_status_def)
    qed
  next
    case CancelledError
    then have c: "ctl ?p' = Exited None" and r: "reported (sess ?p') = reported (sess p)"
      using rep by (simp_all add: raise_in_cases)
    from ex[OF c] normal[OF c] c r CancelledError st show ?thesis
      by (simp add: Let_def)
  next
    case JSONDecodeError
    with rep show ?thesis by (intro plain) (simp_all add: raise_in_cases)
  next
    case (KeyError k)
    with rep show ?thesis by (intro plain) (simp_all add: raise_in_cases)
  next
    case TypeError
    with rep show ?thesis by (intro plain) (simp_all add: raise_in_cases)
  next
    case IndexError
    with rep show ?thesis by (intro plain) (simp_all add: raise_in_cases)
  next
    case (OtherException x)
    with rep show ?thesis by (intro plain) (simp_all add: raise_in_cases)
  qed
qed

theorem supervisor_exception_handling_witness:
  "raising demo_service silence demo_streaming (Inbound (RecvRaises idle_close)) idle_close
   \<and> ctl (step demo_service silence demo_streaming (Inbound (RecvRaises idle_close)))
       = Connecting
   \<and> exit_status (step demo_service silence demo_streaming (Inbound (RecvRaises idle_close)))
       = None
   \<and> connects (sess (step demo_service silence
        (step demo_service silence demo_streaming (Inbound (RecvRaises idle_close)))
        (Connect None)))
       = connects (sess (step demo_service silence demo_streaming
           (Inbound (RecvRaises idle_close)))) + 1
   \<and> raising demo_service silence demo_streaming (Inbound (RecvRaises abnormal_close))
        abnormal_close
   \<and> exit_status (step demo_service silence demo_streaming
        (Inbound (RecvRaises abnormal_close))) = Some 1
   \<and> raising failing_service silence demo_streaming (Inbound (Parsed (final_event ''Hello'')))
        (OtherException ''Connection error.'')
   \<and> exit_status (step failing_service silence
        (step failing_service silence demo_streaming (Inbound (Parsed (final_event ''Hello''))))
        (Key Esc)) = Some 0
   \<and> raising demo_service silence demo_streaming (Inbound NotJSON) JSONDecodeError
   \<and> reported (sess (step demo_service silence demo_streaming (Inbound NotJSON)))
       = [JSONDecodeError]
   \<and> exit_status (step demo_service silence demo_streaming (Inbound NotJSON)) = None"
proof -
  have h1: "raising demo_service silence demo_streaming (Inbound (RecvRaises idle_close))
      idle_close"
    by code_simp
  have h2: "raising demo_service silence demo_streaming (Inbound (RecvRaises abnormal_close))
      abnormal_close"
    by code_simp
  have h3: "raising failing_service silence demo_streaming
      (Inbound (Parsed (final_event ''Hello''))) (OtherException ''Connection error.'')"
    by code_simp
  have m1: "str_contains idle_marker
      ''received 4031 (private use) Session idle for too long; then sent 4031''"
    by code_simp
  have m2: "\<not> str_contains idle_marker ''no close frame received or sent''"
    by code_simp
  have h4: "raising demo_service silence demo_streaming (Inbound NotJSON) JSONDecodeError"
    by code_simp
  have running: "\<not> stop_transcription (sess demo_streaming)"
    "reported (sess demo_streaming) = []" "listening demo_streaming"
    by code_simp+
  have l: "listening (step demo_service silence demo_streaming (Inbound NotJSON))"
    by code_simp
  from supervisor_exception_handling [OF h1, of "[]" None]
    supervisor_exception_handling [OF h2, of "[]" None]
    supervisor_exception_handling [OF h3, of "[]" None]
    supervisor_exception_handling [OF h4, of "[]" None]
    h1 h2 h3 h4 m1 m2 running l
  show ?thesis
    by (simp add: Let_def idle_close_def abnormal_close_def run_events_def del: step.simps)
qed

text \<open>
  The claim as written fails for a connection error that is not a \<open>ConnectionClosedError\<close>
  (the server refuses the connection, or closes it with a normal close code): the clause
  \<^verbatim>\<open>except Exception\<close> prints it and breaks, \<open>send_receive\<close> returns, and once the listener
  has stopped the process ends with status 0.
\<close>

theorem other_connection_error_exits_normally:
  "exit_status (run_events demo_service silence demo_program
      [Connect (Some (OtherException ''server rejected WebSocket connection: HTTP 401'')),
       Key Esc]) = Some 0
   \<and> exit_status (run_events demo_service silence demo_program
      [Connect None, Wake,
       Inbound (RecvRaises (OtherException ''received 1000 (OK); then sent 1000 (OK)'')),
       Key Esc]) = Some 0"
  by code_simp

subsection \<open>Inbound frames that are not final-type events\<close>





subsection \<open>The Conversation Log grows by appending only\<close>

lemma log_grows_iff:
  "log_grows s s' \<longleftrightarrow>
     (\<exists>new reqs. messages s' = messages s @ new \<and> list_all turn_role new
        \<and> requests s' = requests s @ reqs
        \<and> list_all (\<lambda>r. prefix (messages s) (snd r)) reqs)"
  by (auto simp: log_grows_def prefix_def)

lemma log_grows_same:
  "messages s' = messages s \<Longrightarrow> requests s' = requests s \<Longrightarrow> log_grows s s'"
  by (simp add: log_grows_def)

lemma log_grows_trans:
  assumes "log_grows a b" and "log_grows b c"
  shows "log_grows a c"
proof -
  from assms(1) obtain n1 r1 where
    1: "messages b = messages a @ n1" "list_all turn_role n1"
       "requests b = requests a @ r1" "list_all (\<lambda>r. prefix (messages a) (snd r)) r1"
    by (auto simp: log_grows_iff)
  from assms(2) obtain n2 r2 where
    2: "messages c = messages b @ n2" "list_all turn_role n2"
       "requests c = requests b @ r2" "list_all (\<lambda>r. prefix (messages b) (snd r)) r2"
    by (auto simp: log_grows_iff)
  have "list_all (\<lambda>r. prefix (messages a) (snd r)) r2"
    using 2(4) 1(1) by (auto simp: list_all_iff intro: append_prefixD)
  with 1 2 have "messages c = messages a @ (n1 @ n2) \<and> list_all turn_role (n1 @ n2)
     \<and> requests c = requests a @ (r1 @ r2)
     \<and> list_all (\<lambda>r. prefix (messages a) (snd r)) (r1 @ r2)"
    by simp
  then show ?thesis unfolding log_grows_iff by blast
qed

lemma handoff_grows: "log_grows s (state_of (handoff svc s))"
  by (simp add: log_grows_def handoff_eq process_transcripts_eq Let_def turn_role_def
      split: option.splits)

lemma receive_body_grows: "log_grows s (state_of (receive_body svc s i))"
proof (cases i)
  case (Parsed j)
  show ?thesis
  proof (cases "final_text j")
    case None
    with Parsed show ?thesis by (simp add: receive_body_not_final log_grows_same)
  next
    case (Some t)
    have "log_grows s (s\<lparr>user_message := user_message s @ t\<rparr>)"
      by (simp add: log_grows_same)
    moreover have "log_grows (s\<lparr>user_message := user_message s @ t\<rparr>)
        (state_of (handoff svc (s\<lparr>user_message := user_message s @ t\<rparr>)))"
      by (rule handoff_grows)
    ultimately show ?thesis using Parsed Some
      by (auto simp: receive_body_final intro: log_grows_trans)
  qed
qed (simp_all add: receive_body_def log_grows_same)

lemma send_body_frame:
  "messages (state_of (send_body mic s r)) = messages s"
  "requests (state_of (send_body mic s r)) = requests s"
  by (simp_all add: send_body_def stream_read_def Let_def split: option.splits)

lemma step_sess_cases:
  "(messages (sess (step svc mic p ev)) = messages (sess p)
      \<and> requests (sess (step svc mic p ev)) = requests (sess p))
   \<or> (\<exists>i. messages (sess (step svc mic p ev)) = messages (state_of (receive_body svc (sess p) i))
      \<and> requests (sess (step svc mic p ev)) = requests (state_of (receive_body svc (sess p) i)))"
proof (cases ev)
  case (Key k)
  then show ?thesis
    by (cases "on_key_press (sess p) k")
      (use on_key_press_frame(1,2)[of "sess p" k] in auto)
next
  case (Connect r)
  then show ?thesis
    by (cases "ctl p"; cases r)
      (simp_all add: Let_def raise_in_sess except_clauses_frame py_print_def)
next
  case (Audio r)
  show ?thesis
  proof (cases "send_body mic (sess p) r")
    case (Normal s')
    with Audio send_body_frame[of mic "sess p" r] show ?thesis
      by (auto simp: gathering_def split: control.splits task.splits)
  next
    case (Raised e s')
    with Audio send_body_frame[of mic "sess p" r] show ?thesis
      by (auto simp: gathering_def raise_in_sess except_clauses_frame
          split: control.splits task.splits)
  qed
next
  case Wake
  then show ?thesis
    by (auto simp: gathering_def split: control.splits task.splits)
next
  case (Inbound i)
  show ?thesis
  proof (cases "receive_body svc (sess p) i")
    case (Normal s')
    with Inbound show ?thesis
      by (auto split: control.splits task.splits intro!: exI[of _ i])
  next
    case (Raised e s')
    with Inbound show ?thesis
      by (auto simp: raise_in_sess except_clauses_frame
          split: control.splits task.splits intro!: exI[of _ i])
  qed
next
  case (OldAudio r)
  show ?thesis
  proof (cases "send_body mic (sess p) r")
    case (Normal s')
    with OldAudio send_body_frame[of mic "sess p" r] show ?thesis
      by (auto split: control.splits)
  next
    case (Raised e s')
    with OldAudio send_body_frame[of mic "sess p" r] show ?thesis
      by (auto split: control.splits)
  qed
next
  case (OldWake k)
  then show ?thesis
    by (auto split: control.splits)
next
  case (OldInbound k i)
  show ?thesis
  proof (cases "receive_body svc (sess p) i")
    case (Normal s')
    with OldInbound show ?thesis
      by (auto split: control.splits intro!: exI[of _ i])
  next
    case (Raised e s')
    with OldInbound show ?thesis
      by (auto split: control.splits intro!: exI[of _ i])
  qed
qed

lemma step_grows: "log_grows (sess p) (sess (step svc mic p ev))"
  using step_sess_cases[of svc mic p ev] receive_body_grows[of "sess p" svc]
  by (auto simp: log_grows_def)

lemma run_events_grows: "log_grows (sess p) (sess (run_events svc mic p evs))"
  unfolding run_events_def
proof (induction evs arbitrary: p)
  case Nil
  then show ?case by (simp add: log_grows_same)
next
  case (Cons ev evs)
  from step_grows[of p svc mic ev] Cons[of "step svc mic p ev"] show ?case
    by (auto intro: log_grows_trans)
qed

lemma start_log:
  "messages (sess (start sp am un iname)) =
     [\<lparr>role = ''system'', content = sp\<rparr>, \<lparr>role = ''user'', content = style_note\<rparr>]"
  "requests (sess (start sp am un iname)) = []"
  by (simp_all add: start_def init_def append_message_def)

text \<open>
  Claim C6. \<open>append_message\<close> adds one entry at the end and leaves the others. Every step of
  the program leaves the Conversation Log it found as a prefix of the log it leaves: no
  entry is changed or removed, and the entries added have role \<open>user\<close> or
  \<open>assistant\<close>. So in every state reachable from the start of the session, entry 0 is the
  \<open>system\<close> entry with the content given at creation, and every entry has one of the three
  roles.
\<close>

theorem log_is_append_only:
  "messages (append_message r m s) = messages s @ [\<lparr>role = r, content = m\<rparr>]
   \<and> prefix (messages (sess p)) (messages (sess (step svc mic p ev)))
   \<and> list_all turn_role (drop (length (messages (sess p))) (messages (sess (step svc mic p ev))))
   \<and> prefix (messages (sess p)) (messages (sess (run_events svc mic p evs)))
   \<and> messages (sess (run_events svc mic (start sp am un iname) evs)) ! 0
       = \<lparr>role = ''system'', content = sp\<rparr>
   \<and> list_all log_role (messages (sess (run_events svc mic (start sp am un iname) evs)))"
proof -
  let ?p0 = "start sp am un iname"
  let ?s = "sess (run_events svc mic ?p0 evs)"
  from run_events_grows[of ?p0 svc mic evs] obtain new where
    new: "messages ?s = messages (sess ?p0) @ new" "list_all turn_role new"
    by (auto simp: log_grows_iff)
  have roles: "list_all log_role new"
    using new(2) by (auto simp: list_all_iff turn_role_def log_role_def)
  have 1: "messages ?s ! 0 = \<lparr>role = ''system'', content = sp\<rparr>"
    using new(1) by (simp add: start_log)
  have 2: "list_all log_role (messages ?s)"
    using new(1) roles by (simp add: start_log log_role_def)
  from step_grows[of p svc mic ev] run_events_grows[of p svc mic evs] 1 2 show ?thesis
    by (simp add: log_grows_def append_message_def)
qed

theorem log_is_append_only_witness:
  "messages (sess (run_events demo_service silence demo_program
      [Connect None, Key Space, Wake, Inbound (Parsed (final_event ''Hello '')),
       Wake, Inbound (Parsed (final_event ''there'')), Key Space,
       Wake, Inbound (Parsed (final_event ''.''))]))
    = [\<lparr>role = ''system'', content = ''You are a helpful assistant.''\<rparr>,
       \<lparr>role = ''user'', content = style_note\<rparr>,
       \<lparr>role = ''user'', content = ''Hello there.''\<rparr>,
       \<lparr>role = ''assistant'', content = ''Hi back''\<rparr>]
   \<and> messages (sess (run_events demo_service silence demo_program
      [Connect None, Key Space, Wake, Inbound (Parsed (final_event ''Hello '')),
       Wake, Inbound (Parsed (final_event ''there'')), Key Space,
       Wake, Inbound (Parsed (final_event ''.''))])) ! 0
    = \<lparr>role = ''system'', content = ''You are a helpful assistant.''\<rparr>"
proof -
  have run: "messages (sess (run_events demo_service silence demo_program
      [Connect None, Key Space, Wake, Inbound (Parsed (final_event ''Hello '')),
       Wake, Inbound (Parsed (final_event ''there'')), Key Space,
       Wake, Inbound (Parsed (final_event ''.''))]))
    = [\<lparr>role = ''system'', content = ''You are a helpful assistant.''\<rparr>,
       \<lparr>role = ''user'', content = style_note\<rparr>,
       \<lparr>role = ''user'', content = ''Hello there.''\<rparr>,
       \<lparr>role = ''assistant'', content = ''Hi back''\<rparr>]"
    by code_simp
  from log_is_append_only [of "''user''" "[]" demo_session demo_program demo_service silence
      Wake
      "[Connect None, Key Space, Wake, Inbound (Parsed (final_event ''Hello '')),
        Wake, Inbound (Parsed (final_event ''there'')), Key Space,
        Wake, Inbound (Parsed (final_event ''.''))]"
      "''You are a helpful assistant.''" "''gpt-4''" "''Me''" "''Interviewer''"] run
  show ?thesis
    by (simp add: demo_program_def del: step.simps)
qed

subsection \<open>The style note\<close>

text \<open>
  Claim C9. The constructor leaves a Conversation Log of exactly two entries: the \<open>system\<close>
  entry and, after it, the hardcoded \<open>user\<close> note; nothing has been processed or requested
  yet. In every state reachable from the start of the session, every completion request
  that has been made carried a log that begins with these two entries, so that the note is
  the first \<open>user\<close> message of its context.
\<close>

theorem style_note_in_every_request:
  "messages (init sp am un iname) =
      [\<lparr>role = ''system'', content = sp\<rparr>, \<lparr>role = ''user'', content = style_note\<rparr>]
   \<and> length (messages (init sp am un iname)) = 2
   \<and> prefix ''Note: Remember to always be concise'' style_note
   \<and> processed (init sp am un iname) = [] \<and> requests (init sp am un iname) = []
   \<and> list_all
        (\<lambda>r. prefix [\<lparr>role = ''system'', content = sp\<rparr>, \<lparr>role = ''user'', content = style_note\<rparr>]
               (snd r)
            \<and> find (\<lambda>m. role m = ''user'') (snd r) = Some \<lparr>role = ''user'', content = style_note\<rparr>)
        (requests (sess (run_events svc mic (start sp am un iname) evs)))"
proof -
  let ?p0 = "start sp am un iname"
  let ?init = "[\<lparr>role = ''system'', content = sp\<rparr>, \<lparr>role = ''user'', content = style_note\<rparr>]"
  from run_events_grows[of ?p0 svc mic evs] obtain reqs where
    reqs: "requests (sess (run_events svc mic ?p0 evs)) = reqs"
      "list_all (\<lambda>r. prefix ?init (snd r)) reqs"
    by (auto simp: log_grows_iff start_log)
  have "find (\<lambda>m. role m = ''user'') ms = Some \<lparr>role = ''user'', content = style_note\<rparr>"
    if "prefix ?init ms" for ms
    using that by (auto simp: prefix_def)
  with reqs(2) have "list_all (\<lambda>r. prefix ?init (snd r)
      \<and> find (\<lambda>m. role m = ''user'') (snd r) = Some \<lparr>role = ''user'', content = style_note\<rparr>) reqs"
    by (auto simp: list_all_iff)
  with reqs(1) show ?thesis
    by (simp add: init_def append_message_def style_note_def)
qed

theorem style_note_in_every_request_witness:
  "requests (sess (run_events demo_service silence demo_program
      [Connect None, Key Space, Wake, Inbound (Parsed (final_event ''Hello '')),
       Wake, Inbound (Parsed (final_event ''there'')), Key Space,
       Wake, Inbound (Parsed (final_event ''.''))]))
    = [(''gpt-4'',
        [\<lparr>role = ''system'', content = ''You are a helpful assistant.''\<rparr>,
         \<lparr>role = ''user'', content = style_note\<rparr>,
         \<lparr>role = ''user'', content = ''Hello there.''\<rparr>])]
   \<and> list_all
        (\<lambda>r. prefix [\<lparr>role = ''system'', content = ''You are a helpful assistant.''\<rparr>,
                       \<lparr>role = ''user'', content = style_note\<rparr>] (snd r)
            \<and> find (\<lambda>m. role m = ''user'') (snd r) = Some \<lparr>role = ''user'', content = style_note\<rparr>)
        (requests (sess (run_events demo_service silence demo_program
          [Connect None, Key Space, Wake, Inbound (Parsed (final_event ''Hello '')),
           Wake, Inbound (Parsed (final_event ''there'')), Key Space,
           Wake, Inbound (Parsed (final_event ''.''))])))"
proof -
  have run: "requests (sess (run_events demo_service silence demo_program
      [Connect None, Key Space, Wake, Inbound (Parsed (final_event ''Hello '')),
       Wake, Inbound (Parsed (final_event ''there'')), Key Space,
       Wake, Inbound (Parsed (final_event ''.''))]))
    = [(''gpt-4'',
        [\<lparr>role = ''system'', content = ''You are a helpful assistant.''\<rparr>,
         \<lparr>role = ''user'', content = style_note\<rparr>,
         \<lparr>role = ''user'', content = ''Hello there.''\<rparr>])]"
    by code_simp
  from style_note_in_every_request [of "''You are a helpful assistant.''" "''gpt-4''" "''Me''"
      "''Interviewer''" demo_service silence
      "[Connect None, Key Space, Wake, Inbound (Parsed (final_event ''Hello '')),
        Wake, Inbound (Parsed (final_event ''there'')), Key Space,
        Wake, Inbound (Parsed (final_event ''.''))]"] run
  show ?thesis
    by (simp add: demo_program_def del: step.simps)
qed

subsection \<open>A cycle of the sender\<close>

lemma b64_alphabet_length: "length b64_alphabet = 64"
  by (simp add: b64_alphabet_def)

lemma b64_char_in: "b64_char n \<in> set b64_alphabet"
  unfolding b64_char_def by (rule nth_mem) (simp add: b64_alphabet_length)

lemma b64encode_chars: "set (b64encode bs) \<subseteq> set (CHR ''='' # b64_alphabet)"
  by (induction bs rule: b64encode.induct) (auto simp: Let_def b64_char_in)

lemma json_escape_b64_all: "list_all (\<lambda>c. json_escape c = [c]) (CHR ''='' # b64_alphabet)"
  by code_simp

lemma concat_map_single: "(\<And>c. c \<in> set xs \<Longrightarrow> f c = [c]) \<Longrightarrow> concat (map f xs) = xs"
  by (induction xs) simp_all

lemma json_dumps_str_b64: "json_dumps_str (b64encode bs) = CHR 0x22 # b64encode bs @ [CHR 0x22]"
proof -
  have "json_escape c = [c]" if "c \<in> set (b64encode bs)" for c
    using that b64encode_chars[of bs] json_escape_b64_all
    unfolding list_all_iff by blast
  then have "concat (map json_escape (b64encode bs)) = b64encode bs"
    by (rule concat_map_single)
  then show ?thesis by (simp add: json_dumps_str_def)
qed

lemma json_dumps_key: \<open>json_dumps_str ''audio_data'' = ''"audio_data"''\<close>
  by code_simp

lemma json_dumps_audio:
  \<open>json_dumps_dict1 ''audio_data'' (b64encode bs) = ''{"audio_data": "'' @ b64encode bs @ ''"}''\<close>
  by (simp add: json_dumps_dict1_def json_dumps_str_b64 json_dumps_key)

lemma b64_alphabet_distinct: "distinct b64_alphabet"
  by code_simp

lemma pad_not_in: "CHR ''='' \<notin> set b64_alphabet"
  by code_simp

lemma index_nth:
  "distinct xs \<Longrightarrow> n < length xs \<Longrightarrow> length (takeWhile (\<lambda>x. x \<noteq> xs ! n) xs) = n"
proof (induction xs arbitrary: n)
  case Nil
  then show ?case by simp
next
  case (Cons x xs)
  then show ?case by (cases n) auto
qed

lemma b64_index_char: "b64_index (b64_char n) = n mod 64"
  unfolding b64_index_def b64_char_def
  by (rule index_nth) (simp_all add: b64_alphabet_distinct b64_alphabet_length)

lemma b64_char_not_pad: "b64_char n \<noteq> CHR ''=''"
proof -
  have "b64_char n \<in> set b64_alphabet"
    unfolding b64_char_def by (rule nth_mem) (simp add: b64_alphabet_length)
  with pad_not_in show ?thesis by metis
qed

lemma sextets:
  fixes n :: nat
  assumes "n < 16777216"
  shows "(n div 262144) mod 64 * 262144 + (n div 4096) mod 64 * 4096
         + (n div 64) mod 64 * 64 + n mod 64 = n"
proof -
  have a: "n div 64 div 64 = n div 4096" "n div 64 div 64 div 64 = n div 262144"
    by (simp_all add: div_mult2_eq[symmetric])
  have small: "n div 262144 < 64" using assms by simp
  have 1: "n = (n div 64) * 64 + n mod 64" by simp
  have 2: "n div 64 = (n div 4096) * 64 + (n div 64) mod 64"
    using a(1) by (metis div_mult_mod_eq)
  have 3: "n div 4096 = (n div 262144) * 64 + (n div 4096) mod 64"
    using a by (metis div_mult_mod_eq)
  have 4: "(n div 262144) mod 64 = n div 262144" using small by simp
  show ?thesis
    using 1 2 3 4 by linarith
qed

lemma byte_bound: "unat (a :: byte) < 256"
  using unsigned_less[of a] by simp

lemma byte_wrap: "(of_nat (x * 256 + unat b) :: byte) = b"
proof -
  have "unat (of_nat (x * 256 + unat b) :: byte) = (x * 256 + unat b) mod 2 ^ LENGTH(8)"
    by (rule unat_of_nat)
  also have "\<dots> = unat b" using byte_bound[of b] by simp
  finally show ?thesis by (simp only: word_unat_eq_iff)
qed

lemma group3:
  fixes a b c :: byte
  defines "n \<equiv> unat a * 65536 + unat b * 256 + unat c"
  shows "n < 16777216" "(of_nat (n div 65536) :: byte) = a"
    "(of_nat (n div 256) :: byte) = b" "(of_nat n :: byte) = c"
proof -
  note bd = byte_bound[of a] byte_bound[of b] byte_bound[of c]
  show "n < 16777216" using bd unfolding n_def by linarith
  have "n div 65536 = unat a" using bd unfolding n_def by linarith
  then show "(of_nat (n div 65536) :: byte) = a" by simp
  have "n div 256 = unat a * 256 + unat b" using bd unfolding n_def by linarith
  then show "(of_nat (n div 256) :: byte) = b" by (simp only: byte_wrap)
  have "n = (unat a * 256 + unat b) * 256 + unat c" unfolding n_def by simp
  then show "(of_nat n :: byte) = c" by (simp only: byte_wrap)
qed

lemma decode_quad:
  assumes "n < 16777216"
  shows "b64decode (b64_char (n div 262144) # b64_char (n div 4096) # b64_char (n div 64)
            # b64_char n # rest) =
         [of_nat (n div 65536), of_nat (n div 256), of_nat n] @ b64decode rest"
proof -
  have s: "b64_index (b64_char (n div 262144)) * 262144 + b64_index (b64_char (n div 4096)) * 4096
      + b64_index (b64_char (n div 64)) * 64 + b64_index (b64_char n) = n"
    using sextets[OF assms] by (simp only: b64_index_char)
  show ?thesis
    by (simp only: b64decode.simps(1) Let_def b64_char_not_pad if_False s)
qed

lemma decode_pad1:
  assumes "n < 16777216" and "n mod 64 = 0"
  shows "b64decode [b64_char (n div 262144), b64_char (n div 4096), b64_char (n div 64), CHR ''='']
         = [of_nat (n div 65536), of_nat (n div 256)]"
proof -
  have s: "b64_index (b64_char (n div 262144)) * 262144 + b64_index (b64_char (n div 4096)) * 4096
      + b64_index (b64_char (n div 64)) * 64 + 0 = n"
    using sextets[OF assms(1)] assms(2) by (simp only: b64_index_char)
  show ?thesis
    by (simp only: b64decode.simps(1) Let_def b64_char_not_pad if_False if_True refl s)
qed

lemma decode_pad2:
  assumes "n < 16777216" and "n mod 64 = 0" and "n div 64 mod 64 = 0"
  shows "b64decode [b64_char (n div 262144), b64_char (n div 4096), CHR ''='', CHR ''='']
         = [of_nat (n div 65536)]"
proof -
  have s: "b64_index (b64_char (n div 262144)) * 262144 + b64_index (b64_char (n div 4096)) * 4096
      + 0 + 0 = n"
    using sextets[OF assms(1)] assms(2,3) by (simp only: b64_index_char mult_0)
  show ?thesis
    by (simp only: b64decode.simps(1) Let_def if_True refl s)
qed

lemma b64decode_b64encode: "b64decode (b64encode bs) = bs"
proof (induction bs rule: b64encode.induct)
  case 1
  show ?case by simp
next
  case (2 a)
  define n where "n = unat a * 65536 + unat (0::byte) * 256 + unat (0::byte)"
  have n: "n = unat a * 65536" by (simp add: n_def)
  have "n = (unat a * 1024) * 64" "n div 64 = (unat a * 16) * 64" by (simp_all add: n)
  then have m: "n mod 64 = 0" "n div 64 mod 64 = 0" by (simp_all only: mod_mult_self2_is_0)
  have enc: "b64encode [a] = [b64_char (n div 262144), b64_char (n div 4096), CHR ''='', CHR ''='']"
    by (simp only: b64encode.simps Let_def n)
  have bound: "n < 16777216" and byte1: "(of_nat (n div 65536) :: byte) = a"
    using group3(1,2)[of a 0 0] by (simp_all only: n_def)
  show ?case by (simp only: enc decode_pad2[OF bound m] byte1)
next
  case (3 a b)
  define n where "n = unat a * 65536 + unat b * 256 + unat (0::byte)"
  have n: "n = unat a * 65536 + unat b * 256" by (simp add: n_def)
  have "n = (unat a * 1024 + unat b * 4) * 64" by (simp add: n)
  then have m: "n mod 64 = 0" by (simp only: mod_mult_self2_is_0)
  have enc: "b64encode [a, b] =
      [b64_char (n div 262144), b64_char (n div 4096), b64_char (n div 64), CHR ''='']"
    by (simp only: b64encode.simps Let_def n)
  have bound: "n < 16777216" and byte1: "(of_nat (n div 65536) :: byte) = a"
    and byte2: "(of_nat (n div 256) :: byte) = b"
    using group3(1,2,3)[of a b 0] by (simp_all only: n_def)
  show ?case by (simp only: enc decode_pad1[OF bound m] byte1 byte2)
next
  case (4 a b c rest)
  define n where "n = unat a * 65536 + unat b * 256 + unat c"
  have enc: "b64encode (a # b # c # rest) =
      b64_char (n div 262144) # b64_char (n div 4096) # b64_char (n div 64) # b64_char n
      # b64encode rest"
    by (simp only: b64encode.simps Let_def n_def append.simps)
  have bound: "n < 16777216" and byte1: "(of_nat (n div 65536) :: byte) = a"
    and byte2: "(of_nat (n div 256) :: byte) = b" and byte3: "(of_nat n :: byte) = c"
    using group3[of a b c] by (simp_all only: n_def)
  show ?case
    by (simp only: enc decode_quad[OF bound] byte1 byte2 byte3 "4.IH" append.simps)
qed

lemma b64encode_length: "length (b64encode bs) = 4 * ((length bs + 2) div 3)"
proof (induction bs rule: b64encode.induct)
  case (4 a b c rest)
  have "(length rest + 5) div 3 = Suc ((length rest + 2) div 3)" by presburger
  with 4 show ?case by (simp add: Let_def add.commute)
qed (simp_all add: Let_def)

lemma b64encode_rfc4648:
  "b64encode [] = ''''"
  "b64encode [0x66] = ''Zg==''"
  "b64encode [0x66, 0x6F] = ''Zm8=''"
  "b64encode [0x66, 0x6F, 0x6F] = ''Zm9v''"
  "b64encode [0x66, 0x6F, 0x6F, 0x62] = ''Zm9vYg==''"
  "b64encode [0x66, 0x6F, 0x6F, 0x62, 0x61] = ''Zm9vYmE=''"
  "b64encode [0x66, 0x6F, 0x6F, 0x62, 0x61, 0x72] = ''Zm9vYmFy''"
  by (simp_all add: b64_char_def b64_alphabet_def Let_def)

lemma except_clauses_transmitted:
  "transmitted (fst (except_clauses s e)) = transmitted s"
  "frames_read (fst (except_clauses s e)) = frames_read s"
  by (cases e; simp)+

lemma demo_session_traces:
  "frames_read demo_session = 0" "sent demo_session = []" "transmitted demo_session = []"
  by (simp_all add: demo_session_def init_def append_message_def)

text \<open>
  Claim C8, as the code has it. In a cycle of the sender in which the toggle is active,
  \<^verbatim>\<open>stream.read\<close> is called once and pulls the next frame buffer of the fixed size
  (\<open>FRAMES_PER_BUFFER\<close> = 3200 frames, 6400 bytes) from the audio source, and
  \<^verbatim>\<open>websocket.send\<close> is called once, with the JSON text of an object whose single key
  \<open>audio_data\<close> maps to the base64 encoding of those bytes (from which decoding gives the
  bytes back). If \<^verbatim>\<open>send\<close> returns, that one message has been transmitted and the cycle
  returns. If \<^verbatim>\<open>send\<close> raises, the frame has been read but nothing has been transmitted, and
  the cycle raises what \<^verbatim>\<open>send\<close> raised. In a cycle in which the toggle is paused nothing is
  read, nothing is sent and nothing is transmitted. A cycle of the sender task of the
  running program is such a cycle; once the stop flag is set the task reads and transmits
  nothing more.
\<close>

theorem sender_cycle:
  \<open>FRAMES_PER_BUFFER = 3200
   \<and> (if transcribing s then
        fst (stream_read mic s FRAMES_PER_BUFFER)
          = map mic [2 * frames_read s ..< 2 * frames_read s + 6400]
        \<and> frames_read (state_of (send_body mic s r)) = frames_read s + FRAMES_PER_BUFFER
        \<and> sent (state_of (send_body mic s r)) =
            sent s @ [''{"audio_data": "''
                      @ b64encode (fst (stream_read mic s FRAMES_PER_BUFFER)) @ ''"}'']
        \<and> b64decode (b64encode (fst (stream_read mic s FRAMES_PER_BUFFER)))
            = fst (stream_read mic s FRAMES_PER_BUFFER)
        \<and> (case r of
              None \<Rightarrow>
                send_body mic s r = Normal (state_of (send_body mic s r))
                \<and> transmitted (state_of (send_body mic s r)) =
                    transmitted s @ [''{"audio_data": "''
                      @ b64encode (fst (stream_read mic s FRAMES_PER_BUFFER)) @ ''"}'']
            | Some e \<Rightarrow>
                send_body mic s r = Raised e (state_of (send_body mic s r))
                \<and> transmitted (state_of (send_body mic s r)) = transmitted s)
      else send_body mic s r = Normal s)
   \<and> (case ctl p of
        Streaming AtTest b \<Rightarrow>
          (if stop_transcription (sess p) then
             frames_read (sess (step svc mic p (Audio r))) = frames_read (sess p)
             \<and> transmitted (sess (step svc mic p (Audio r))) = transmitted (sess p)
           else
             frames_read (sess (step svc mic p (Audio r)))
               = frames_read (state_of (send_body mic (sess p) r))
             \<and> transmitted (sess (step svc mic p (Audio r)))
               = transmitted (state_of (send_body mic (sess p) r)))
      | _ \<Rightarrow> step svc mic p (Audio r) = p)\<close>
proof -
  have body: \<open>(if transcribing s then
        fst (stream_read mic s FRAMES_PER_BUFFER)
          = map mic [2 * frames_read s ..< 2 * frames_read s + 6400]
        \<and> frames_read (state_of (send_body mic s r)) = frames_read s + FRAMES_PER_BUFFER
        \<and> sent (state_of (send_body mic s r)) =
            sent s @ [''{"audio_data": "''
                      @ b64encode (fst (stream_read mic s FRAMES_PER_BUFFER)) @ ''"}'']
        \<and> b64decode (b64encode (fst (stream_read mic s FRAMES_PER_BUFFER)))
            = fst (stream_read mic s FRAMES_PER_BUFFER)
        \<and> (case r of
              None \<Rightarrow>
                send_body mic s r = Normal (state_of (send_body mic s r))
                \<and> transmitted (state_of (send_body mic s r)) =
                    transmitted s @ [''{"audio_data": "''
                      @ b64encode (fst (stream_read mic s FRAMES_PER_BUFFER)) @ ''"}'']
            | Some e \<Rightarrow>
                send_body mic s r = Raised e (state_of (send_body mic s r))
                \<and> transmitted (state_of (send_body mic s r)) = transmitted s)
      else send_body mic s r = Normal s)\<close>
    by (simp add: send_body_def stream_read_def FRAMES_PER_BUFFER_def Let_def json_dumps_audio
        b64decode_b64encode split: option.splits del: upt_Suc upt_rec_numeral)
  have prog: \<open>(case ctl p of
        Streaming AtTest b \<Rightarrow>
          (if stop_transcription (sess p) then
             frames_read (sess (step svc mic p (Audio r))) = frames_read (sess p)
             \<and> transmitted (sess (step svc mic p (Audio r))) = transmitted (sess p)
           else
             frames_read (sess (step svc mic p (Audio r)))
               = frames_read (state_of (send_body mic (sess p) r))
             \<and> transmitted (sess (step svc mic p (Audio r)))
               = transmitted (state_of (send_body mic (sess p) r)))
      | _ \<Rightarrow> step svc mic p (Audio r) = p)\<close>
    by (cases "send_body mic (sess p) r")
      (simp_all add: gathering_def raise_in_sess except_clauses_transmitted
        split: control.splits task.splits)
  from body prog show ?thesis
    by (simp add: FRAMES_PER_BUFFER_def)
qed

theorem sender_cycle_witness:
  \<open>transmitted (state_of (send_body silence (demo_session\<lparr>transcribing := True\<rparr>) None)) =
      [''{"audio_data": "'' @ b64encode (map silence [0 ..< 6400]) @ ''"}'']
   \<and> frames_read (state_of (send_body silence (demo_session\<lparr>transcribing := True\<rparr>) None)) = 3200
   \<and> transmitted (state_of (send_body silence (demo_session\<lparr>transcribing := True\<rparr>)
        (Some abnormal_close))) = []
   \<and> send_body silence demo_session None = Normal demo_session\<close>
proof -
  have active:
    \<open>transmitted (state_of (send_body silence (demo_session\<lparr>transcribing := True\<rparr>) None)) =
        [''{"audio_data": "'' @ b64encode (map silence [0 ..< 6400]) @ ''"}'']
     \<and> frames_read (state_of (send_body silence (demo_session\<lparr>transcribing := True\<rparr>) None))
        = 3200\<close>
    using sender_cycle [of "demo_session\<lparr>transcribing := True\<rparr>" silence None demo_service
        demo_program] demo_session_traces
    by (simp add: FRAMES_PER_BUFFER_def del: upt_Suc upt_rec_numeral step.simps)
  have failing:
    \<open>transmitted (state_of (send_body silence (demo_session\<lparr>transcribing := True\<rparr>)
        (Some abnormal_close))) = []\<close>
    using sender_cycle [of "demo_session\<lparr>transcribing := True\<rparr>" silence
        "Some abnormal_close" demo_service demo_program] demo_session_traces
    by (simp add: FRAMES_PER_BUFFER_def del: upt_Suc upt_rec_numeral step.simps)
  have paused: \<open>send_body silence demo_session None = Normal demo_session\<close>
    using sender_cycle [of demo_session silence None demo_service demo_program]
    by (simp add: demo_session_fields del: upt_Suc upt_rec_numeral step.simps)
  from active failing paused show ?thesis
    by (simp only: simp_thms)
qed

text \<open>
  The claim as written fails in an active cycle in which \<^verbatim>\<open>websocket.send\<close> raises (the
  connection has been closed): the frame has been read from the audio source, 3200 frames
  further on, and nothing has been transmitted. With a close that is not the idle timeout
  the exception leaves \<open>send_receive\<close> and the frame is lost.
\<close>

theorem failed_send_transmits_nothing:
  "transcribing (demo_session\<lparr>transcribing := True\<rparr>)
   \<and> raised_by (send_body silence (demo_session\<lparr>transcribing := True\<rparr>) (Some abnormal_close))
        abnormal_close
   \<and> frames_read (state_of (send_body silence (demo_session\<lparr>transcribing := True\<rparr>)
        (Some abnormal_close))) = 3200
   \<and> transmitted (state_of (send_body silence (demo_session\<lparr>transcribing := True\<rparr>)
        (Some abnormal_close))) = []
   \<and> transcribing (sess (run_events demo_service silence demo_program
        [Connect None, Key Space]))
   \<and> frames_read (sess (run_events demo_service silence demo_program
        [Connect None, Key Space, Audio (Some abnormal_close)])) = 3200
   \<and> transmitted (sess (run_events demo_service silence demo_program
        [Connect None, Key Space, Audio (Some abnormal_close)])) = []
   \<and> exit_status (run_events demo_service silence demo_program
        [Connect None, Key Space, Audio (Some abnormal_close)]) = Some 1"
  by (simp add: run_events_def demo_program_def demo_session_def start_def init_def
      append_message_def py_print_def toggle_transcription_def send_body_def stream_read_def
      FRAMES_PER_BUFFER_def Let_def raise_in_def abandon_def abnormal_close_def
      idle_marker_def raised_by_def exit_status_def
      del: upt_rec_numeral upt_Suc)

end
